theory Spec2Isabelle
  imports Main "HOL-Library.AList" "HOL-Library.Char_ord" "HOL-Library.List_Lexorder"
begin

section \<open>Python values handled by the RSS event source\<close>

text \<open>
  The plugin \<^verbatim>\<open>rss.py\<close> works on dynamically typed values: the feed configuration is a
  dictionary, and every entry of a parsed feed is a dictionary (feedparser's
  \<^verbatim>\<open>FeedParserDict\<close>, a subclass of \<^verbatim>\<open>dict\<close>). The values covered here are \<^verbatim>\<open>None\<close>,
  integers, strings, tuples of integers (\<^verbatim>\<open>time.struct_time\<close>, the type of
  \<^verbatim>\<open>updated_parsed\<close>, is such a tuple) and dictionaries with string keys. A dictionary is
  an association list in insertion order; a lookup takes the first binding of a key.
\<close>

datatype error = AttributeError | TypeError | OverflowError | OtherError string

datatype pyval =
    PNone
  | PInt int
  | PStr string
  | PTuple "int list"
  | PDict "(string \<times> pyval) list"

type_synonym dict = "(string \<times> pyval) list"

text \<open>Truth value of an object, as \<^verbatim>\<open>if x\<close>, \<^verbatim>\<open>x or y\<close> and \<^verbatim>\<open>x and y\<close> test it.\<close>

fun truthy :: "pyval \<Rightarrow> bool" where
  "truthy PNone = False"
| "truthy (PInt n) = (n \<noteq> 0)"
| "truthy (PStr s) = (s \<noteq> [])"
| "truthy (PTuple t) = (t \<noteq> [])"
| "truthy (PDict d) = (d \<noteq> [])"

text \<open>\<^verbatim>\<open>x or y\<close>: the first operand when it is truthy, the second otherwise.\<close>

definition py_or :: "pyval \<Rightarrow> pyval \<Rightarrow> pyval" where
  "py_or x y = (if truthy x then x else y)"

fun is_dict :: "pyval \<Rightarrow> bool" where
  "is_dict (PDict d) = True"
| "is_dict v = False"

text \<open>\<^verbatim>\<open>d.get(k)\<close> and \<^verbatim>\<open>d.get(k, default)\<close> on a dictionary.\<close>

definition dict_get_default :: "dict \<Rightarrow> string \<Rightarrow> pyval \<Rightarrow> pyval" where
  "dict_get_default d k dflt = (case map_of d k of None \<Rightarrow> dflt | Some v \<Rightarrow> v)"

definition dict_get :: "dict \<Rightarrow> string \<Rightarrow> pyval" where
  "dict_get d k = dict_get_default d k PNone"

text \<open>
  The method call \<^verbatim>\<open>x.get(k)\<close> on an arbitrary value: only a dictionary has the method,
  every other value raises \<^verbatim>\<open>AttributeError\<close>.
\<close>

fun py_get :: "pyval \<Rightarrow> string \<Rightarrow> error + pyval" where
  "py_get (PDict d) k = Inr (dict_get d k)"
| "py_get v k = Inl AttributeError"

text \<open>
  Attribute access \<^verbatim>\<open>entry.name\<close> on a \<^verbatim>\<open>FeedParserDict\<close> is a key lookup that raises
  \<^verbatim>\<open>AttributeError\<close> when the key is missing; \<^verbatim>\<open>hasattr\<close> tells whether it would succeed.
  (feedparser also reads some keys under a second name; an entry of the model carries a
  value under the name the code reads, or not at all.)
\<close>

definition getattr :: "dict \<Rightarrow> string \<Rightarrow> error + pyval" where
  "getattr d k = (case map_of d k of None \<Rightarrow> Inl AttributeError | Some v \<Rightarrow> Inr v)"

definition hasattr :: "dict \<Rightarrow> string \<Rightarrow> bool" where
  "hasattr d k = (map_of d k \<noteq> None)"

text \<open>\<^verbatim>\<open>d[k] = v\<close>: an existing key keeps its position, a new key goes to the end.\<close>

definition dict_set :: "dict \<Rightarrow> string \<Rightarrow> pyval \<Rightarrow> dict" where
  "dict_set d k v = AList.update k v d"

text \<open>
  \<^verbatim>\<open>a > b\<close>. Integers, strings and tuples are ordered among themselves (strings and tuples
  lexicographically); \<^verbatim>\<open>None\<close>, dictionaries and operands of two different kinds raise
  \<^verbatim>\<open>TypeError\<close>.
\<close>

fun py_gt :: "pyval \<Rightarrow> pyval \<Rightarrow> error + bool" where
  "py_gt (PInt a) (PInt b) = Inr (b < a)"
| "py_gt (PStr a) (PStr b) = Inr (b < a)"
| "py_gt (PTuple a) (PTuple b) = Inr (b < a)"
| "py_gt a b = Inl TypeError"

text \<open>Substring test of \<^verbatim>\<open>str.__contains__\<close>: the needle starts at some position.\<close>

fun str_contains :: "string \<Rightarrow> string \<Rightarrow> bool" where
  "str_contains q [] = (q = [])"
| "str_contains q (c # s) = (take (length q) (c # s) = q \<or> str_contains q s)"

text \<open>
  \<^verbatim>\<open>needle in container\<close>. In a string only a string can be looked for; a tuple of
  integers contains an integer or nothing; a dictionary is searched by key, and a
  dictionary as needle is unhashable; \<^verbatim>\<open>None\<close> and integers are not iterable.
\<close>

fun py_in :: "pyval \<Rightarrow> pyval \<Rightarrow> error + bool" where
  "py_in (PStr q) (PStr s) = Inr (str_contains q s)"
| "py_in needle (PStr s) = Inl TypeError"
| "py_in (PInt n) (PTuple t) = Inr (n \<in> set t)"
| "py_in needle (PTuple t) = Inr False"
| "py_in (PDict x) (PDict d) = Inl TypeError"
| "py_in (PStr q) (PDict d) = Inr (map_of d q \<noteq> None)"
| "py_in needle (PDict d) = Inr False"
| "py_in needle PNone = Inl TypeError"
| "py_in needle (PInt n) = Inl TypeError"

text \<open>\<^verbatim>\<open>s.split(c)\<close> with a one-character separator: never an empty list.\<close>

fun split_on :: "char \<Rightarrow> string \<Rightarrow> string list" where
  "split_on c [] = [[]]"
| "split_on c (x # xs) =
     (if x = c then [] # split_on c xs
      else (case split_on c xs of [] \<Rightarrow> [[x]] | w # ws \<Rightarrow> (x # w) # ws))"

section \<open>Field projection: \<^verbatim>\<open>get_nested_value\<close>\<close>

text \<open>
  \<^verbatim>\<open>
  def get_nested_value(dictionary, keys):
      for key in keys:
          if dictionary is None or not isinstance(dictionary, dict):
              return None
          dictionary = dictionary.get(key)
      return dictionary
  \<close>
  The call \<^verbatim>\<open>dictionary.get(key)\<close> is the only operation of the body that can raise, so
  the model keeps its error branch.
\<close>

fun get_nested_value :: "pyval \<Rightarrow> string list \<Rightarrow> error + pyval" where
  "get_nested_value dictionary [] = Inr dictionary"
| "get_nested_value dictionary (key # keys) =
     (if dictionary = PNone \<or> \<not> is_dict dictionary then Inr PNone
      else (case py_get dictionary key of
              Inl e \<Rightarrow> Inl e
            | Inr v \<Rightarrow> get_nested_value v keys))"

text \<open>
  Lines 101 and 102 of \<^verbatim>\<open>poll_feed\<close>:
  \<^verbatim>\<open>content_tags_keys = content_tags_path.split('.') if content_tags_path else []\<close>.
  A truthy path that is not a string has no \<^verbatim>\<open>split\<close> method.
\<close>

definition content_tags_keys_of :: "pyval \<Rightarrow> error + string list" where
  "content_tags_keys_of content_tags_path =
     (if truthy content_tags_path then
        (case content_tags_path of
           PStr s \<Rightarrow> Inr (split_on CHR ''.'' s)
         | _ \<Rightarrow> Inl AttributeError)
      else Inr [])"

text \<open>
  Lines 117 and 126:
  \<^verbatim>\<open>content_tags = get_nested_value(entry, content_tags_keys) if content_tags_keys else None\<close>.
\<close>

definition content_tags_of :: "dict \<Rightarrow> string list \<Rightarrow> error + pyval" where
  "content_tags_of entry keys =
     (if keys \<noteq> [] then get_nested_value (PDict entry) keys else Inr PNone)"

text \<open>The projection of a dotted path as \<^verbatim>\<open>poll_feed\<close> performs it: both lines together.\<close>

definition project :: "dict \<Rightarrow> string \<Rightarrow> error + pyval" where
  "project entry path =
     (case content_tags_keys_of (PStr path) of
        Inl e \<Rightarrow> Inl e
      | Inr keys \<Rightarrow> content_tags_of entry keys)"

text \<open>
  The walk as the specification words it: a sequence of nested dictionary lookups that
  stops with no result as soon as a value on the way is absent or not a dictionary.
\<close>

fun spec_walk :: "pyval \<Rightarrow> string list \<Rightarrow> pyval option" where
  "spec_walk v [] = Some v"
| "spec_walk (PDict d) (k # ks) =
     (case map_of d k of None \<Rightarrow> None | Some v \<Rightarrow> spec_walk v ks)"
| "spec_walk v (k # ks) = None"

text \<open>
  A dotted path as the specification writes it: the keys joined by dots, \<^verbatim>\<open>tags.label\<close>
  for the keys \<^verbatim>\<open>tags\<close> and \<^verbatim>\<open>label\<close>.
\<close>

fun dotted :: "string list \<Rightarrow> string" where
  "dotted [] = []"
| "dotted [k] = k"
| "dotted (k # k' # ks) = k @ CHR ''.'' # dotted (k' # ks)"

section \<open>Fetching and parsing\<close>

text \<open>
  What the HTTP request of \<^verbatim>\<open>fetch_rss_feed\<close> can come to: a response with a status and
  a body, or an exception of the transport. The function returns the body of a 200
  response and the empty string in every other case.
\<close>

datatype http_outcome = Response int string | TransportError

fun fetch_rss_feed :: "http_outcome \<Rightarrow> string" where
  "fetch_rss_feed (Response status body) = (if status = 200 then body else [])"
| "fetch_rss_feed TransportError = []"

text \<open>
  The document \<^verbatim>\<open>feedparser.parse\<close> returns: the list \<^verbatim>\<open>feed.entries\<close> and the
  dictionary \<^verbatim>\<open>feed.feed\<close>. The parser itself is a parameter of the model, a function
  from the fetched text to a document or to the exception it raises.
\<close>

record parsed_feed =
  entries :: "dict list"
  feed :: dict

type_synonym parser = "string \<Rightarrow> error + parsed_feed"

section \<open>The poller: \<^verbatim>\<open>poll_feed\<close>\<close>

text \<open>The local variables of \<^verbatim>\<open>poll_feed\<close>, lines 99 to 106.\<close>

record poller =
  feed_url :: pyval
  search_string :: pyval
  content_tags_keys :: "string list"
  interval :: pyval
  feed_name :: pyval
  last_updated :: pyval
  first_poll :: bool

text \<open>Line 103: \<^verbatim>\<open>interval = feed_config.get('interval') or default_interval\<close>.\<close>

definition effective_interval :: "dict \<Rightarrow> int \<Rightarrow> pyval" where
  "effective_interval feed_config default_interval =
     py_or (dict_get feed_config ''interval'') (PInt default_interval)"

definition poll_feed_init :: "dict \<Rightarrow> int \<Rightarrow> error + poller" where
  "poll_feed_init feed_config default_interval =
     (case content_tags_keys_of (dict_get feed_config ''content_tags'') of
        Inl e \<Rightarrow> Inl e
      | Inr keys \<Rightarrow>
          Inr \<lparr> feed_url = dict_get feed_config ''url'',
                search_string = dict_get feed_config ''search'',
                content_tags_keys = keys,
                interval = effective_interval feed_config default_interval,
                feed_name = dict_get_default feed_config ''name'' (PStr []),
                last_updated = PNone,
                first_poll = True \<rparr>)"

text \<open>
  The search filter, lines 116 and 125:
  \<^verbatim>\<open>search_string is None or search_string in entry.summary\<close>.
  The summary is read only when a search string is configured.
\<close>

definition search_passes :: "pyval \<Rightarrow> dict \<Rightarrow> error + bool" where
  "search_passes search entry =
     (if search = PNone then Inr True
      else (case getattr entry ''summary'' of
              Inl e \<Rightarrow> Inl e
            | Inr summary \<Rightarrow> py_in search summary))"

text \<open>
  The condition of line 125:
  \<^verbatim>\<open>entry.updated_parsed > last_updated and (search_string is None or ...)\<close>.
  The search filter is evaluated only when the comparison is true.
\<close>

definition entry_selected :: "poller \<Rightarrow> dict \<Rightarrow> error + bool" where
  "entry_selected p entry =
     (case getattr entry ''updated_parsed'' of
        Inl e \<Rightarrow> Inl e
      | Inr t \<Rightarrow>
          (case py_gt t (last_updated p) of
             Inl e \<Rightarrow> Inl e
           | Inr False \<Rightarrow> Inr False
           | Inr True \<Rightarrow> search_passes (search_string p) entry))"

text \<open>
  Lines 117 to 120 and 126 to 129: the event put on the queue is the entry with
  \<^verbatim>\<open>content_tags\<close> set when the projection is not \<^verbatim>\<open>None\<close>, and with \<^verbatim>\<open>feed_name\<close> set.
\<close>

definition decorate :: "poller \<Rightarrow> dict \<Rightarrow> error + dict" where
  "decorate p entry =
     (case content_tags_of entry (content_tags_keys p) of
        Inl e \<Rightarrow> Inl e
      | Inr content_tags \<Rightarrow>
          (let entry' = (if content_tags \<noteq> PNone
                         then dict_set entry ''content_tags'' content_tags
                         else entry)
           in Inr (dict_set entry' ''feed_name'' (feed_name p))))"

text \<open>
  The cold-start branch, lines 115 to 122, on the first entry of the document. An
  exception leaves the branch before \<^verbatim>\<open>first_poll = False\<close>.
\<close>

definition cold_start :: "poller \<Rightarrow> dict \<Rightarrow> poller \<times> dict list \<times> error option" where
  "cold_start p entry =
     (case search_passes (search_string p) entry of
        Inl e \<Rightarrow> (p, [], Some e)
      | Inr False \<Rightarrow> (p\<lparr>first_poll := False\<rparr>, [], None)
      | Inr True \<Rightarrow>
          (case decorate p entry of
             Inl e \<Rightarrow> (p, [], Some e)
           | Inr event \<Rightarrow> (p\<lparr>first_poll := False\<rparr>, [event], None)))"

text \<open>
  The loop of lines 124 to 130 over the entries: the events put on the queue so far,
  and the exception that ended the loop, if any. Events already on the queue stay there.
\<close>

fun steady_scan :: "poller \<Rightarrow> dict list \<Rightarrow> dict list \<times> error option" where
  "steady_scan p [] = ([], None)"
| "steady_scan p (entry # rest) =
     (case entry_selected p entry of
        Inl e \<Rightarrow> ([], Some e)
      | Inr False \<Rightarrow> steady_scan p rest
      | Inr True \<Rightarrow>
          (case decorate p entry of
             Inl e \<Rightarrow> ([], Some e)
           | Inr event \<Rightarrow>
               (case steady_scan p rest of (out, r) \<Rightarrow> (event # out, r))))"

text \<open>Lines 114 to 130: the choice between the two branches, or neither.\<close>

definition select_entries ::
  "bool \<Rightarrow> poller \<Rightarrow> parsed_feed \<Rightarrow> poller \<times> dict list \<times> error option" where
  "select_entries most_recent_item p f =
     (if first_poll p \<and> most_recent_item \<and> entries f \<noteq> [] then
        cold_start p (hd (entries f))
      else if truthy (last_updated p) then
        (case steady_scan p (entries f) of (out, r) \<Rightarrow> (p, out, r))
      else (p, [], None))"

text \<open>
  Line 132:
  \<^verbatim>\<open>last_updated = feed.feed.updated_parsed if hasattr(feed.feed, 'updated_parsed') else None\<close>.
\<close>

definition feed_updated_parsed :: "parsed_feed \<Rightarrow> pyval" where
  "feed_updated_parsed f =
     (if hasattr (feed f) ''updated_parsed''
      then dict_get (feed f) ''updated_parsed'' else PNone)"

text \<open>
  What one iteration writes to the log: nothing, "No data fetched" (line 134), or
  "Error polling" with the exception caught on line 135.
\<close>

datatype log_entry = NoData | PollError error

text \<open>
  One iteration of the \<^verbatim>\<open>while True\<close> loop, lines 109 to 136, without the sleep: the
  poller's variables afterwards, the events put on the queue, and the log entry.
  The assignment of line 132 is reached only when nothing was raised before it.
\<close>

definition poll_iteration ::
  "parser \<Rightarrow> bool \<Rightarrow> poller \<Rightarrow> http_outcome \<Rightarrow> poller \<times> dict list \<times> log_entry option" where
  "poll_iteration parse most_recent_item p outcome =
     (let feed_data = fetch_rss_feed outcome in
      if feed_data \<noteq> [] then
        (case parse feed_data of
           Inl e \<Rightarrow> (p, [], Some (PollError e))
         | Inr f \<Rightarrow>
             (case select_entries most_recent_item p f of
                (p', out, Some e) \<Rightarrow> (p', out, Some (PollError e))
              | (p', out, None) \<Rightarrow>
                  (p'\<lparr>last_updated := feed_updated_parsed f\<rparr>, out, None)))
      else (p, [], Some NoData))"

text \<open>
  Line 137, \<^verbatim>\<open>await asyncio.sleep(interval)\<close>, stands outside the \<^verbatim>\<open>try\<close>: a delay that is
  not a number raises \<^verbatim>\<open>TypeError\<close> and ends the poller, and so does, with
  \<^verbatim>\<open>OverflowError\<close>, an integer too large to become a float (the event loop adds the delay
  to its clock: the conversion fails from \<open>2 ^ 1024 - 2 ^ 970\<close> on). A delay of zero or
  less returns at once.
\<close>

fun py_sleep :: "pyval \<Rightarrow> error + unit" where
  "py_sleep (PInt n) = (if n < 2 ^ 1024 - 2 ^ 970 then Inr () else Inl OverflowError)"
| "py_sleep v = Inl TypeError"

text \<open>
  The loop itself never ends by its own; the model runs it over the outcomes of its
  first fetches, one per iteration, and returns the exception that ended the poller (if
  any), the poller's variables and the events put on the queue, in order.
\<close>

fun poll_loop ::
  "parser \<Rightarrow> bool \<Rightarrow> poller \<Rightarrow> http_outcome list \<Rightarrow> error option \<times> poller \<times> dict list" where
  "poll_loop parse most_recent_item p [] = (None, p, [])"
| "poll_loop parse most_recent_item p (outcome # rest) =
     (case poll_iteration parse most_recent_item p outcome of
        (p', out, lg) \<Rightarrow>
          (case py_sleep (interval p') of
             Inl e \<Rightarrow> (Some e, p', out)
           | Inr u \<Rightarrow>
               (case poll_loop parse most_recent_item p' rest of
                  (r, p'', out') \<Rightarrow> (r, p'', out @ out'))))"

section \<open>Notions used in the statements\<close>

text \<open>
  The event that \<open>decorate\<close> makes of an entry (\<open>decorate\<close> never raises, see
  \<open>decorate_total\<close> below); an entry whose \<^verbatim>\<open>updated_parsed\<close> compares strictly greater
  than the watermark; an entry that passes the search filter; an entry on which the
  condition of line 125 raises; an entry without a timestamp that can be compared with
  the watermark (the attribute is missing, or the comparison raises).
\<close>

definition event_of :: "poller \<Rightarrow> dict \<Rightarrow> dict" where
  "event_of p entry = (case decorate p entry of Inl e \<Rightarrow> entry | Inr event \<Rightarrow> event)"

definition is_newer :: "pyval \<Rightarrow> dict \<Rightarrow> bool" where
  "is_newer watermark entry =
     (case getattr entry ''updated_parsed'' of
        Inl e \<Rightarrow> False
      | Inr t \<Rightarrow> py_gt t watermark = Inr True)"

definition passes_search :: "pyval \<Rightarrow> dict \<Rightarrow> bool" where
  "passes_search search entry = (search_passes search entry = Inr True)"

definition raises :: "poller \<Rightarrow> dict \<Rightarrow> bool" where
  "raises p entry = (case entry_selected p entry of Inl e \<Rightarrow> True | Inr b \<Rightarrow> False)"

definition lacks_timestamp :: "pyval \<Rightarrow> dict \<Rightarrow> bool" where
  "lacks_timestamp watermark entry =
     (case getattr entry ''updated_parsed'' of
        Inl e \<Rightarrow> True
      | Inr t \<Rightarrow> (case py_gt t watermark of Inl e \<Rightarrow> True | Inr b \<Rightarrow> False))"

text \<open>
  Whether the selection of lines 114 to 130 raises, read off the poller and the document:
  in the cold-start branch the search filter raises on the entry at index 0; in the
  steady branch the condition of line 125 raises on some entry.
\<close>

definition cycle_raises :: "bool \<Rightarrow> poller \<Rightarrow> parsed_feed \<Rightarrow> bool" where
  "cycle_raises most_recent_item p f =
     (if first_poll p \<and> most_recent_item \<and> entries f \<noteq> [] then
        (case search_passes (search_string p) (hd (entries f)) of
           Inl e \<Rightarrow> True
         | Inr b \<Rightarrow> False)
      else if truthy (last_updated p) then list_ex (raises p) (entries f)
      else False)"

definition selected :: "poller \<Rightarrow> dict \<Rightarrow> bool" where
  "selected p entry =
     (is_newer (last_updated p) entry \<and> passes_search (search_string p) entry)"

section \<open>Example documents and pollers\<close>

text \<open>
  Three timestamps (1, 2 and 3 January 2024 as \<^verbatim>\<open>struct_time\<close> tuples), a few entries,
  the documents a parser returns for a few feed texts, and a poller before its first
  cycle, after it, and with a search string. As feedparser does, the example parser
  answers a text that is no feed with a document without entries and without a feed-level
  timestamp; \<open>raising_parse\<close> stands for a parser that raises instead.
\<close>

definition ts_jan1 :: pyval where "ts_jan1 = PTuple [2024, 1, 1, 0, 0, 0, 0, 1, 0]"
definition ts_jan2 :: pyval where "ts_jan2 = PTuple [2024, 1, 2, 0, 0, 0, 1, 2, 0]"
definition ts_jan3 :: pyval where "ts_jan3 = PTuple [2024, 1, 3, 0, 0, 0, 2, 3, 0]"

definition entry_old :: dict where
  "entry_old = [(''id'', PStr ''a1''), (''summary'', PStr ''python rocks''),
                (''updated_parsed'', ts_jan1)]"

definition entry_same :: dict where
  "entry_same = [(''id'', PStr ''a2''), (''summary'', PStr ''python rocks''),
                 (''updated_parsed'', ts_jan2)]"

definition entry_new :: dict where
  "entry_new = [(''id'', PStr ''a3''), (''summary'', PStr ''python rocks''),
                (''updated_parsed'', ts_jan3)]"

definition entry_undated :: dict where
  "entry_undated = [(''id'', PStr ''b1''), (''summary'', PStr ''python rocks'')]"

definition entry_baddate :: dict where
  "entry_baddate = [(''id'', PStr ''b2''), (''summary'', PStr ''python rocks''),
                    (''updated_parsed'', PNone)]"

definition entry_nosummary :: dict where
  "entry_nosummary = [(''id'', PStr ''c1''), (''title'', PStr ''python rocks''),
                      (''updated_parsed'', ts_jan3)]"

definition doc_empty :: parsed_feed where
  "doc_empty = \<lparr> entries = [], feed = [(''updated_parsed'', ts_jan2)] \<rparr>"

definition doc_old :: parsed_feed where
  "doc_old = \<lparr> entries = [entry_old], feed = [(''updated_parsed'', ts_jan2)] \<rparr>"

definition doc_mixed :: parsed_feed where
  "doc_mixed = \<lparr> entries = [entry_new, entry_same, entry_old],
                 feed = [(''updated_parsed'', ts_jan3)] \<rparr>"

definition doc_undated :: parsed_feed where
  "doc_undated = \<lparr> entries = [entry_undated, entry_new],
                   feed = [(''updated_parsed'', ts_jan3)] \<rparr>"

definition doc_baddate :: parsed_feed where
  "doc_baddate = \<lparr> entries = [entry_new, entry_baddate],
                   feed = [(''updated_parsed'', ts_jan3)] \<rparr>"

definition doc_nosummary :: parsed_feed where
  "doc_nosummary = \<lparr> entries = [entry_nosummary],
                     feed = [(''updated_parsed'', ts_jan3)] \<rparr>"

definition doc_malformed :: parsed_feed where
  "doc_malformed = \<lparr> entries = [], feed = [] \<rparr>"

definition demo_parse :: parser where
  "demo_parse s =
     (if s = ''empty'' then Inr doc_empty
      else if s = ''old'' then Inr doc_old
      else if s = ''mixed'' then Inr doc_mixed
      else if s = ''undated'' then Inr doc_undated
      else if s = ''baddate'' then Inr doc_baddate
      else if s = ''nosummary'' then Inr doc_nosummary
      else Inr doc_malformed)"

definition raising_parse :: parser where
  "raising_parse s = Inl (OtherError ''parser raised'')"

definition demo_config :: dict where
  "demo_config = [(''url'', PStr ''http://example.com/rss''), (''name'', PStr ''Example RSS'')]"

definition demo_cold :: poller where
  "demo_cold = \<lparr> feed_url = PStr ''http://example.com/rss'', search_string = PNone,
                 content_tags_keys = [], interval = PInt 7200,
                 feed_name = PStr ''Example RSS'', last_updated = PNone,
                 first_poll = True \<rparr>"

definition demo_steady :: poller where
  "demo_steady = demo_cold \<lparr> last_updated := ts_jan2, first_poll := False \<rparr>"

definition demo_search :: poller where
  "demo_search = demo_steady \<lparr> search_string := PStr ''python'' \<rparr>"

section \<open>Field projection: results\<close>

lemma get_nested_value_walk:
  "get_nested_value v ks = Inr (case spec_walk v ks of None \<Rightarrow> PNone | Some w \<Rightarrow> w)"
proof (induction v ks rule: spec_walk.induct)
  case (1 v)
  show ?case by simp
next
  case (2 d k ks)
  show ?case
  proof (cases "map_of d k")
    case None
    then show ?thesis
      by (cases ks) (simp_all add: dict_get_def dict_get_default_def)
  next
    case (Some w)
    with 2 show ?thesis
      by (simp add: dict_get_def dict_get_default_def)
  qed
qed simp_all

lemma split_on_nonempty: "split_on c s \<noteq> []"
  by (induction s) (auto split: list.splits)

text \<open>
  C6. Field projection is total and deterministic: for every value (a dictionary or
  not, with or without the keys) and every list of keys, \<open>get_nested_value\<close> returns a
  value and raises nothing, and that value is determined by the two arguments alone.
  The guard before \<^verbatim>\<open>dictionary.get(key)\<close> is what keeps the call from raising.
\<close>

theorem get_nested_value_total: "\<exists>!v. get_nested_value dictionary keys = Inr v"
proof (induction keys arbitrary: dictionary)
  case Nil
  show ?case by simp
next
  case (Cons key keys)
  show ?case
  proof (cases dictionary)
    case (PDict d)
    with Cons [of "dict_get d key"] show ?thesis by simp
  qed simp_all
qed

lemma split_on_no_sep: "c \<notin> set k \<Longrightarrow> split_on c k = [k]"
  by (induction k) auto

lemma split_on_append_sep:
  "c \<notin> set k \<Longrightarrow> split_on c (k @ c # rest) = k # split_on c rest"
  by (induction k) auto

lemma split_on_dotted:
  "keys \<noteq> [] \<Longrightarrow> \<forall>k \<in> set keys. CHR ''.'' \<notin> set k \<Longrightarrow>
   split_on CHR ''.'' (dotted keys) = keys"
proof (induction keys rule: dotted.induct)
  case 1
  then show ?case by simp
next
  case (2 k)
  then show ?case by (simp add: split_on_no_sep)
next
  case (3 k k' ks)
  then show ?case by (simp add: split_on_append_sep)
qed

lemma split_on_keys_free: "\<forall>k \<in> set (split_on c s). c \<notin> set k"
  by (induction s) (auto split: list.splits)

lemma dotted_split_on: "dotted (split_on CHR ''.'' s) = s"
proof (induction s)
  case Nil
  show ?case by simp
next
  case (Cons x s)
  obtain w ws where sp: "split_on CHR ''.'' s = w # ws"
    using split_on_nonempty [of "CHR ''.''" s] by (cases "split_on CHR ''.'' s") auto
  with Cons show ?case
    by (cases ws) auto
qed

lemma project_walk:
  "project entry path =
     Inr (if path = [] then PNone
          else (case spec_walk (PDict entry) (split_on CHR ''.'' path) of
                  None \<Rightarrow> PNone
                | Some v \<Rightarrow> v))"
  by (simp add: project_def content_tags_keys_of_def content_tags_of_def
      split_on_nonempty get_nested_value_walk)

text \<open>
  C5. Every path is the dotted form of exactly the keys the code splits it into: a
  non-empty list of keys without a dot. For every entry and every such path, the
  projection that \<^verbatim>\<open>poll_feed\<close> makes (line 102 splits the path on the dot, line 117 calls
  \<open>get_nested_value\<close>) is \<^verbatim>\<open>None\<close> for the empty path, \<^verbatim>\<open>None\<close> as soon as a value on the
  way along the keys is absent or not a dictionary, and the value at the end of the path
  otherwise.
\<close>

theorem project_refines_spec:
  "(\<exists>keys. keys \<noteq> [] \<and> (\<forall>k \<in> set keys. CHR ''.'' \<notin> set k) \<and> dotted keys = path)
   \<and> (\<forall>keys. keys \<noteq> [] \<and> (\<forall>k \<in> set keys. CHR ''.'' \<notin> set k) \<and> dotted keys = path \<longrightarrow>
         project entry path =
           Inr (if path = [] then PNone
                else (case spec_walk (PDict entry) keys of
                        None \<Rightarrow> PNone
                      | Some v \<Rightarrow> v)))"
proof (intro conjI allI impI)
  have "split_on CHR ''.'' path \<noteq> []" by (rule split_on_nonempty)
  moreover have "\<forall>k \<in> set (split_on CHR ''.'' path). CHR ''.'' \<notin> set k"
    by (rule split_on_keys_free)
  moreover have "dotted (split_on CHR ''.'' path) = path" by (rule dotted_split_on)
  ultimately show "\<exists>keys. keys \<noteq> [] \<and> (\<forall>k \<in> set keys. CHR ''.'' \<notin> set k) \<and> dotted keys = path"
    by blast
next
  fix keys
  assume k: "keys \<noteq> [] \<and> (\<forall>k \<in> set keys. CHR ''.'' \<notin> set k) \<and> dotted keys = path"
  then have "split_on CHR ''.'' path = keys"
    using split_on_dotted [of keys] by auto
  then show "project entry path =
      Inr (if path = [] then PNone
           else (case spec_walk (PDict entry) keys of None \<Rightarrow> PNone | Some v \<Rightarrow> v))"
    by (simp add: project_walk)
qed

text \<open>
  The path \<^verbatim>\<open>tags.label\<close> on the entries of the specification's scenario, on an entry
  whose \<^verbatim>\<open>tags\<close> is a string, on an entry without \<^verbatim>\<open>tags\<close>, and the empty path.
\<close>

theorem project_refines_spec_witness:
  "dotted [''tags'', ''label''] = ''tags.label''
   \<and> project [(''tags'', PDict [(''label'', PStr ''news'')])] ''tags.label'' = Inr (PStr ''news'')
   \<and> project [(''tags'', PNone)] ''tags.label'' = Inr PNone
   \<and> project [(''tags'', PStr ''news'')] ''tags.label'' = Inr PNone
   \<and> project [(''title'', PStr ''news'')] ''tags.label'' = Inr PNone
   \<and> dotted [[]] = []
   \<and> project [(''tags'', PDict [(''label'', PStr ''news'')])] [] = Inr PNone"
proof -
  have k: "[''tags'', ''label''] \<noteq> [] \<and> (\<forall>k \<in> set [''tags'', ''label'']. CHR ''.'' \<notin> set k)
           \<and> dotted [''tags'', ''label''] = ''tags.label''"
    by simp
  have e: "[[]] \<noteq> ([] :: string list) \<and> (\<forall>k \<in> set [[]]. CHR ''.'' \<notin> set k) \<and> dotted [[]] = []"
    by simp
  have a: "project [(''tags'', PDict [(''label'', PStr ''news'')])] ''tags.label'' =
             Inr (PStr ''news'')"
    using project_refines_spec
      [where path = "''tags.label''" and entry = "[(''tags'', PDict [(''label'', PStr ''news'')])]"] k
    by (auto dest!: spec [where x = "[''tags'', ''label'']"])
  have b: "project [(''tags'', PNone)] ''tags.label'' = Inr PNone"
    using project_refines_spec
      [where path = "''tags.label''" and entry = "[(''tags'', PNone)]"] k
    by (auto dest!: spec [where x = "[''tags'', ''label'']"])
  have c: "project [(''tags'', PStr ''news'')] ''tags.label'' = Inr PNone"
    using project_refines_spec
      [where path = "''tags.label''" and entry = "[(''tags'', PStr ''news'')]"] k
    by (auto dest!: spec [where x = "[''tags'', ''label'']"])
  have d: "project [(''title'', PStr ''news'')] ''tags.label'' = Inr PNone"
    using project_refines_spec
      [where path = "''tags.label''" and entry = "[(''title'', PStr ''news'')]"] k
    by (auto dest!: spec [where x = "[''tags'', ''label'']"])
  have f: "project [(''tags'', PDict [(''label'', PStr ''news'')])] [] = Inr PNone"
    using project_refines_spec
      [where path = "[]" and entry = "[(''tags'', PDict [(''label'', PStr ''news'')])]"] e
    by (auto dest!: spec [where x = "[[]]"])
  from k e a b c d f show ?thesis by simp
qed

section \<open>The poller: results\<close>

lemmas demo_defs = ts_jan1_def ts_jan2_def ts_jan3_def entry_old_def entry_same_def
  entry_new_def entry_undated_def entry_baddate_def entry_nosummary_def doc_empty_def
  doc_old_def doc_mixed_def doc_undated_def doc_baddate_def doc_nosummary_def
  doc_malformed_def demo_parse_def raising_parse_def
  demo_config_def demo_cold_def demo_steady_def demo_search_def

lemmas poll_defs = poll_iteration_def select_entries_def cold_start_def entry_selected_def
  search_passes_def decorate_def content_tags_of_def feed_updated_parsed_def getattr_def
  hasattr_def dict_get_def dict_get_default_def dict_set_def

lemma content_tags_of_total: "\<exists>v. content_tags_of entry keys = Inr v"
  by (simp add: content_tags_of_def get_nested_value_walk)

lemma decorate_total: "decorate p entry = Inr (event_of p entry)"
proof -
  obtain v where "content_tags_of entry (content_tags_keys p) = Inr v"
    using content_tags_of_total by blast
  then show ?thesis by (simp add: decorate_def event_of_def Let_def)
qed

lemma entry_selected_ok:
  "\<not> raises p e \<Longrightarrow> entry_selected p e = Inr (selected p e)"
  by (auto simp: raises_def entry_selected_def selected_def is_newer_def passes_search_def
      split: sum.splits bool.splits)

lemma lacks_timestamp_raises:
  "lacks_timestamp (last_updated p) e \<Longrightarrow> \<exists>err. entry_selected p e = Inl err"
  by (auto simp: lacks_timestamp_def entry_selected_def split: sum.splits bool.splits)

lemma steady_scan_ok:
  "\<forall>e \<in> set es. \<not> raises p e \<Longrightarrow>
   steady_scan p es = (map (event_of p) (filter (selected p) es), None)"
proof (induction es)
  case Nil
  show ?case by simp
next
  case (Cons e es)
  then have sel: "entry_selected p e = Inr (selected p e)" and
    rest: "steady_scan p es = (map (event_of p) (filter (selected p) es), None)"
    by (simp_all add: entry_selected_ok)
  show ?case
    by (cases "selected p e") (simp_all add: sel rest decorate_total)
qed

lemma steady_scan_raise:
  "\<forall>e \<in> set pre. \<not> raises p e \<Longrightarrow> entry_selected p bad = Inl err \<Longrightarrow>
   steady_scan p (pre @ bad # post) = (map (event_of p) (filter (selected p) pre), Some err)"
proof (induction pre)
  case Nil
  then show ?case by simp
next
  case (Cons e pre)
  then have sel: "entry_selected p e = Inr (selected p e)" and
    rest: "steady_scan p (pre @ bad # post) =
             (map (event_of p) (filter (selected p) pre), Some err)"
    by (simp_all add: entry_selected_ok)
  show ?case
    by (cases "selected p e") (simp_all add: sel rest decorate_total)
qed

lemma map_of_dict_set: "map_of (dict_set d k v) = (map_of d)(k \<mapsto> v)"
  by (simp add: dict_set_def update_conv')

lemma event_of_updated_parsed:
  "getattr (event_of p e) ''updated_parsed'' = getattr e ''updated_parsed''"
proof -
  obtain v where "content_tags_of e (content_tags_keys p) = Inr v"
    using content_tags_of_total by blast
  then show ?thesis
    by (simp add: event_of_def decorate_def Let_def getattr_def map_of_dict_set)
qed

lemma is_newer_event_of: "is_newer w (event_of p e) = is_newer w e"
  by (simp add: is_newer_def event_of_updated_parsed)

lemma steady_scan_sound:
  "\<forall>ev \<in> set (fst (steady_scan p es)). is_newer (last_updated p) ev"
proof (induction es)
  case Nil
  show ?case by simp
next
  case (Cons e es)
  show ?case
  proof (cases "entry_selected p e")
    case (Inl err)
    then show ?thesis by simp
  next
    case (Inr b)
    show ?thesis
    proof (cases b)
      case False
      with Inr Cons show ?thesis by simp
    next
      case True
      with Inr have "is_newer (last_updated p) e"
        by (auto simp: entry_selected_def is_newer_def split: sum.splits bool.splits)
      with True Inr Cons show ?thesis
        by (simp add: decorate_total is_newer_event_of split: prod.splits)
    qed
  qed
qed

text \<open>
  C1 (as amended). In a cycle whose fetch and parse succeed, with the watermark set and
  the cold-start branch not applying (\<^verbatim>\<open>most_recent_item\<close> off, or \<^verbatim>\<open>first_poll\<close> already
  false, or a document without entries), and with no entry on which the condition of
  line 125 raises: the events put on the queue are exactly the entries whose
  \<^verbatim>\<open>updated_parsed\<close> is strictly greater than the watermark and that pass the search
  filter, in the parser's order; every event on the queue is newer than the watermark, so
  an entry with an equal or earlier timestamp is not emitted again.
\<close>

theorem steady_cycle_emits_newer_entries:
  assumes "fetch_rss_feed outcome \<noteq> []"
    and "parse (fetch_rss_feed outcome) = Inr f"
    and "truthy (last_updated p)"
    and "\<not> (first_poll p \<and> most_recent_item \<and> entries f \<noteq> [])"
    and "\<forall>e \<in> set (entries f). \<not> raises p e"
  shows "fst (snd (poll_iteration parse most_recent_item p outcome)) =
           map (event_of p) (filter (selected p) (entries f))
         \<and> (\<forall>ev \<in> set (fst (snd (poll_iteration parse most_recent_item p outcome))).
              is_newer (last_updated p) ev)"
proof -
  have scan: "steady_scan p (entries f) = (map (event_of p) (filter (selected p) (entries f)), None)"
    using assms(5) by (rule steady_scan_ok)
  have sel: "select_entries most_recent_item p f =
               (p, map (event_of p) (filter (selected p) (entries f)), None)"
    using assms(3,4) scan by (auto simp: select_entries_def)
  have out: "fst (snd (poll_iteration parse most_recent_item p outcome)) =
               map (event_of p) (filter (selected p) (entries f))"
    using assms(1,2) sel by (simp add: poll_iteration_def)
  have "\<forall>ev \<in> set (fst (steady_scan p (entries f))). is_newer (last_updated p) ev"
    by (rule steady_scan_sound)
  with scan out show ?thesis by simp
qed

text \<open>The example poller is what \<open>poll_feed_init\<close> makes of the example configuration.\<close>

lemma demo_init: "poll_feed_init demo_config 7200 = Inr demo_cold"
  by (simp add: poll_feed_init_def content_tags_keys_of_def effective_interval_def py_or_def
      dict_get_def dict_get_default_def demo_defs)

text \<open>
  C1 as stated fails while \<^verbatim>\<open>first_poll\<close> is still true. With \<^verbatim>\<open>most_recent_item\<close> on, a
  first document without entries sets the watermark (2 January) and leaves \<^verbatim>\<open>first_poll\<close>
  true; in the next cycle the watermark is set, yet the cold-start branch of line 114
  comes first and emits the entry at index 0, whose timestamp (1 January) is earlier than
  the watermark.
\<close>

theorem steady_cycle_cold_start_counterexample:
  "poll_iteration demo_parse True demo_cold (Response 200 ''empty'') =
     (demo_cold\<lparr>last_updated := ts_jan2\<rparr>, [], None)
   \<and> truthy (last_updated (demo_cold\<lparr>last_updated := ts_jan2\<rparr>))
   \<and> poll_iteration demo_parse True (demo_cold\<lparr>last_updated := ts_jan2\<rparr>) (Response 200 ''old'') =
     (demo_cold\<lparr>last_updated := ts_jan2, first_poll := False\<rparr>,
      [entry_old @ [(''feed_name'', PStr ''Example RSS'')]], None)
   \<and> getattr entry_old ''updated_parsed'' = Inr ts_jan1
   \<and> py_gt ts_jan1 ts_jan2 = Inr False"
  by (simp add: poll_defs demo_defs)

text \<open>
  The scenario of the specification: entries dated 3, 2 and 1 January at the watermark
  2 January; only the entry of 3 January is emitted.
\<close>

theorem steady_cycle_emits_newer_entries_witness:
  "fetch_rss_feed (Response 200 ''mixed'') \<noteq> []
   \<and> demo_parse (fetch_rss_feed (Response 200 ''mixed'')) = Inr doc_mixed
   \<and> truthy (last_updated demo_steady)
   \<and> \<not> first_poll demo_steady
   \<and> entries doc_mixed = [entry_new, entry_same, entry_old]
   \<and> \<not> raises demo_steady entry_new
   \<and> \<not> raises demo_steady entry_same
   \<and> \<not> raises demo_steady entry_old
   \<and> fst (snd (poll_iteration demo_parse False demo_steady (Response 200 ''mixed''))) =
       [entry_new @ [(''feed_name'', PStr ''Example RSS'')]]"
proof -
  have h1: "fetch_rss_feed (Response 200 ''mixed'') \<noteq> []" by simp
  have h2: "demo_parse (fetch_rss_feed (Response 200 ''mixed'')) = Inr doc_mixed"
    by (simp add: demo_parse_def)
  have h3: "truthy (last_updated demo_steady)" by (simp add: demo_defs)
  have h4: "\<not> (first_poll demo_steady \<and> False \<and> entries doc_mixed \<noteq> [])" by simp
  have h5: "\<forall>e \<in> set (entries doc_mixed). \<not> raises demo_steady e"
    by (simp add: raises_def poll_defs demo_defs)
  have ev: "map (event_of demo_steady) (filter (selected demo_steady) (entries doc_mixed)) =
              [entry_new @ [(''feed_name'', PStr ''Example RSS'')]]"
    by (simp add: event_of_def selected_def is_newer_def passes_search_def poll_defs demo_defs)
  have k1: "\<not> first_poll demo_steady" by (simp add: demo_steady_def)
  have k2: "entries doc_mixed = [entry_new, entry_same, entry_old]"
    by (simp add: doc_mixed_def)
  have k3: "\<not> raises demo_steady entry_new \<and> \<not> raises demo_steady entry_same
            \<and> \<not> raises demo_steady entry_old"
    using h5 k2 by simp
  have out: "fst (snd (poll_iteration demo_parse False demo_steady (Response 200 ''mixed''))) =
               [entry_new @ [(''feed_name'', PStr ''Example RSS'')]]"
    using steady_cycle_emits_newer_entries
      [where outcome = "Response 200 ''mixed''" and parse = demo_parse and f = doc_mixed
         and p = demo_steady and most_recent_item = False, OF h1 h2 h3 h4 h5]
      ev
    by simp
  from h1 h2 h3 k1 k2 k3 out show ?thesis by blast
qed

section \<open>The cold start and the watermark\<close>

lemma cold_start_first_poll: "\<not> first_poll p \<Longrightarrow> \<not> first_poll (fst (cold_start p e))"
  by (simp add: cold_start_def decorate_total split: sum.splits bool.splits)

lemma select_entries_first_poll:
  "\<not> first_poll p \<Longrightarrow> \<not> first_poll (fst (select_entries most_recent_item p f))"
  by (simp add: select_entries_def split: prod.splits)

lemma poll_iteration_first_poll:
  "\<not> first_poll p \<Longrightarrow> \<not> first_poll (fst (poll_iteration parse most_recent_item p outcome))"
proof -
  assume np: "\<not> first_poll p"
  show ?thesis
  proof (cases "fetch_rss_feed outcome = []")
    case True
    with np show ?thesis by (simp add: poll_iteration_def)
  next
    case False
    show ?thesis
    proof (cases "parse (fetch_rss_feed outcome)")
      case (Inl e)
      with False np show ?thesis by (simp add: poll_iteration_def)
    next
      case (Inr f)
      obtain p' out r where sel: "select_entries most_recent_item p f = (p', out, r)"
        by (cases "select_entries most_recent_item p f") auto
      with select_entries_first_poll [OF np, of most_recent_item f]
      have "\<not> first_poll p'" by simp
      with False Inr sel show ?thesis
        by (cases r) (simp_all add: poll_iteration_def)
    qed
  qed
qed

lemma poll_loop_first_poll:
  "\<not> first_poll p \<Longrightarrow> \<not> first_poll (fst (snd (poll_loop parse most_recent_item p outcomes)))"
proof (induction outcomes arbitrary: p)
  case Nil
  then show ?case by simp
next
  case (Cons outcome rest)
  obtain p' out lg where it: "poll_iteration parse most_recent_item p outcome = (p', out, lg)"
    by (cases "poll_iteration parse most_recent_item p outcome") auto
  with poll_iteration_first_poll [OF Cons.prems, of parse most_recent_item outcome]
  have np': "\<not> first_poll p'" by simp
  show ?case
  proof (cases "py_sleep (interval p')")
    case (Inl e)
    with it np' show ?thesis by simp
  next
    case (Inr u)
    obtain r p'' out' where rec: "poll_loop parse most_recent_item p' rest = (r, p'', out')"
      by (cases "poll_loop parse most_recent_item p' rest") auto
    with Cons.IH [OF np'] have "\<not> first_poll p''" by simp
    with it Inr rec show ?thesis by simp
  qed
qed

lemma lacks_timestamp_event_of:
  "lacks_timestamp w (event_of p e) = lacks_timestamp w e"
  by (simp add: lacks_timestamp_def event_of_updated_parsed)

lemma lacks_timestamp_is_raise: "lacks_timestamp (last_updated p) e \<Longrightarrow> raises p e"
  by (auto simp: lacks_timestamp_def raises_def entry_selected_def split: sum.splits bool.splits)

text \<open>
  C2 (as amended). On a successful poll with \<^verbatim>\<open>first_poll\<close> still true and
  \<^verbatim>\<open>most_recent_item\<close> on: a document without entries emits nothing and leaves
  \<^verbatim>\<open>first_poll\<close> true; a document with entries whose first entry the search filter
  evaluates emits exactly the entry at index 0 when it passes the filter and nothing
  otherwise, and sets \<^verbatim>\<open>first_poll\<close> to false. Once \<^verbatim>\<open>first_poll\<close> is false it stays false
  over any number of further cycles, so the cold-start branch completes at most once.
\<close>

theorem cold_start_first_entry_only:
  assumes "first_poll p"
    and "fetch_rss_feed outcome \<noteq> []"
    and "parse (fetch_rss_feed outcome) = Inr f"
  shows "(entries f = [] \<longrightarrow>
            fst (snd (poll_iteration parse True p outcome)) = []
            \<and> first_poll (fst (poll_iteration parse True p outcome)))
         \<and> (\<forall>e es b. entries f = e # es \<and> search_passes (search_string p) e = Inr b \<longrightarrow>
              fst (snd (poll_iteration parse True p outcome)) =
                (if b then [event_of p e] else [])
              \<and> \<not> first_poll (fst (poll_iteration parse True p outcome)))
         \<and> (\<forall>(p'::poller) outcomes. \<not> first_poll p' \<longrightarrow>
              \<not> first_poll (fst (snd (poll_loop parse True p' outcomes))))"
proof (intro conjI allI impI)
  assume "entries f = []"
  with assms show "fst (snd (poll_iteration parse True p outcome)) = []"
    by (simp add: poll_iteration_def select_entries_def split: prod.splits option.splits)
next
  assume "entries f = []"
  with assms show "first_poll (fst (poll_iteration parse True p outcome))"
    by (simp add: poll_iteration_def select_entries_def split: prod.splits option.splits)
next
  fix e es b
  assume "entries f = e # es \<and> search_passes (search_string p) e = Inr b"
  with assms show "fst (snd (poll_iteration parse True p outcome)) =
      (if b then [event_of p e] else [])"
    by (cases b) (simp_all add: poll_iteration_def select_entries_def cold_start_def decorate_total)
next
  fix e es b
  assume "entries f = e # es \<and> search_passes (search_string p) e = Inr b"
  with assms show "\<not> first_poll (fst (poll_iteration parse True p outcome))"
    by (cases b) (simp_all add: poll_iteration_def select_entries_def cold_start_def decorate_total)
next
  fix p' :: poller and outcomes
  assume "\<not> first_poll p'"
  then show "\<not> first_poll (fst (snd (poll_loop parse True p' outcomes)))"
    by (rule poll_loop_first_poll)
qed

text \<open>
  C2 as stated fails on a first document without entries: line 122 is inside the branch
  that line 114 guards with \<^verbatim>\<open>feed.entries\<close>, so \<^verbatim>\<open>first_poll\<close> is still true afterwards.
\<close>

theorem cold_start_empty_feed_counterexample:
  "first_poll (fst (poll_iteration demo_parse True demo_cold (Response 200 ''empty'')))
   \<and> entries doc_empty = []
   \<and> demo_parse (fetch_rss_feed (Response 200 ''empty'')) = Inr doc_empty"
  by (simp add: poll_defs demo_defs)

text \<open>
  The first poll of the example poller with \<^verbatim>\<open>most_recent_item\<close> on: of three entries
  only the one at index 0 is emitted.
\<close>

theorem cold_start_first_entry_only_witness:
  "first_poll demo_cold
   \<and> fetch_rss_feed (Response 200 ''mixed'') \<noteq> []
   \<and> demo_parse (fetch_rss_feed (Response 200 ''mixed'')) = Inr doc_mixed
   \<and> entries doc_mixed = entry_new # [entry_same, entry_old]
   \<and> search_passes (search_string demo_cold) entry_new = Inr True
   \<and> fst (snd (poll_iteration demo_parse True demo_cold (Response 200 ''mixed''))) =
       [entry_new @ [(''feed_name'', PStr ''Example RSS'')]]
   \<and> \<not> first_poll (fst (poll_iteration demo_parse True demo_cold (Response 200 ''mixed'')))
   \<and> demo_parse (fetch_rss_feed (Response 200 ''empty'')) = Inr doc_empty
   \<and> entries doc_empty = []
   \<and> fst (snd (poll_iteration demo_parse True demo_cold (Response 200 ''empty''))) = []
   \<and> \<not> first_poll demo_steady
   \<and> \<not> first_poll (fst (snd (poll_loop demo_parse True demo_steady
          [Response 200 ''mixed'', TransportError, Response 200 ''old''])))"
proof -
  have h1: "first_poll demo_cold" by (simp add: demo_cold_def)
  have h2: "fetch_rss_feed (Response 200 ''mixed'') \<noteq> []" by simp
  have h3: "demo_parse (fetch_rss_feed (Response 200 ''mixed'')) = Inr doc_mixed"
    by (simp add: demo_parse_def)
  have h4: "entries doc_mixed = entry_new # [entry_same, entry_old]"
    by (simp add: doc_mixed_def)
  have h5: "search_passes (search_string demo_cold) entry_new = Inr True"
    by (simp add: search_passes_def demo_cold_def)
  have g2: "fetch_rss_feed (Response 200 ''empty'') \<noteq> []" by simp
  have g3: "demo_parse (fetch_rss_feed (Response 200 ''empty'')) = Inr doc_empty"
    by (simp add: demo_parse_def)
  have g4: "entries doc_empty = []" by (simp add: doc_empty_def)
  have k1: "\<not> first_poll demo_steady" by (simp add: demo_steady_def)
  have ev: "event_of demo_cold entry_new = entry_new @ [(''feed_name'', PStr ''Example RSS'')]"
    by (simp add: event_of_def poll_defs demo_defs)
  note A = cold_start_first_entry_only
    [where p = demo_cold and outcome = "Response 200 ''mixed''" and parse = demo_parse
       and f = doc_mixed, OF h1 h2 h3]
  note B = cold_start_first_entry_only
    [where p = demo_cold and outcome = "Response 200 ''empty''" and parse = demo_parse
       and f = doc_empty, OF h1 g2 g3]
  from A h4 h5 have ra:
    "fst (snd (poll_iteration demo_parse True demo_cold (Response 200 ''mixed''))) =
       (if True then [event_of demo_cold entry_new] else [])
     \<and> \<not> first_poll (fst (poll_iteration demo_parse True demo_cold (Response 200 ''mixed'')))"
    by blast
  from B g4 have rb:
    "fst (snd (poll_iteration demo_parse True demo_cold (Response 200 ''empty''))) = []" by blast
  from A k1 have rc: "\<not> first_poll (fst (snd (poll_loop demo_parse True demo_steady
      [Response 200 ''mixed'', TransportError, Response 200 ''old''])))" by blast
  from ra ev have ra': "fst (snd (poll_iteration demo_parse True demo_cold (Response 200 ''mixed''))) =
       [entry_new @ [(''feed_name'', PStr ''Example RSS'')]]
     \<and> \<not> first_poll (fst (poll_iteration demo_parse True demo_cold (Response 200 ''mixed'')))"
    by simp
  from h1 h2 h3 h4 h5 ra' g3 g4 rb k1 rc show ?thesis by blast
qed



lemma steady_scan_error:
  "(snd (steady_scan p es) = None) = (\<not> list_ex (raises p) es)"
proof (induction es)
  case Nil
  show ?case by simp
next
  case (Cons e es)
  show ?case
  proof (cases "entry_selected p e")
    case (Inl err)
    then show ?thesis by (simp add: raises_def)
  next
    case (Inr b)
    then have nr: "\<not> raises p e" by (simp add: raises_def)
    obtain out res where sc: "steady_scan p es = (out, res)"
      by (cases "steady_scan p es") auto
    with Cons have ih: "(res = None) = (\<not> list_ex (raises p) es)" by simp
    show ?thesis
      by (cases b) (simp_all add: Inr nr sc ih decorate_total)
  qed
qed

lemma select_entries_raises:
  assumes "cycle_raises most_recent_item p f"
  shows "\<exists>out e. select_entries most_recent_item p f = (p, out, Some e)"
proof (cases "first_poll p \<and> most_recent_item \<and> entries f \<noteq> []")
  case True
  with assms obtain e where "search_passes (search_string p) (hd (entries f)) = Inl e"
    by (auto simp: cycle_raises_def split: sum.splits)
  with True show ?thesis by (simp add: select_entries_def cold_start_def)
next
  case False
  with assms have t: "truthy (last_updated p)" and r: "list_ex (raises p) (entries f)"
    by (auto simp: cycle_raises_def split: if_splits)
  obtain out res where sc: "steady_scan p (entries f) = (out, res)"
    by (cases "steady_scan p (entries f)") auto
  with r steady_scan_error [of p "entries f"] obtain e where "res = Some e" by auto
  with False t sc show ?thesis by (auto simp: select_entries_def)
qed

lemma select_entries_completes:
  assumes "\<not> cycle_raises most_recent_item p f"
  shows "\<exists>p' out. select_entries most_recent_item p f = (p', out, None)
                   \<and> last_updated p' = last_updated p"
proof (cases "first_poll p \<and> most_recent_item \<and> entries f \<noteq> []")
  case True
  with assms obtain b where "search_passes (search_string p) (hd (entries f)) = Inr b"
    by (auto simp: cycle_raises_def split: sum.splits)
  with True show ?thesis
    by (cases b) (simp_all add: select_entries_def cold_start_def decorate_total)
next
  case False
  show ?thesis
  proof (cases "truthy (last_updated p)")
    case True
    with False assms have r: "\<not> list_ex (raises p) (entries f)"
      by (auto simp: cycle_raises_def)
    obtain out res where sc: "steady_scan p (entries f) = (out, res)"
      by (cases "steady_scan p (entries f)") auto
    with r steady_scan_error [of p "entries f"] have "res = None" by auto
    with False True sc show ?thesis by (auto simp: select_entries_def)
  next
    case nt: False
    with False show ?thesis by (auto simp: select_entries_def)
  qed
qed

text \<open>
  C3 (as amended). A failed fetch leaves the poller's variables as they were and emits
  nothing, and so does a parser that raises. After a parsed document: if the selection
  raises, the poller's variables, the watermark among them, stay as they were and the
  exception is logged; if it raises nothing, the watermark becomes what \<^verbatim>\<open>feed.feed\<close> holds
  under \<^verbatim>\<open>updated_parsed\<close>, and \<^verbatim>\<open>None\<close> when it holds nothing there. A text that is no
  feed is parsed to such a document, so it resets the watermark.
\<close>

theorem watermark_after_cycle:
  "(fetch_rss_feed outcome = [] \<longrightarrow>
      poll_iteration parse most_recent_item p outcome = (p, [], Some NoData))
   \<and> (\<forall>e. fetch_rss_feed outcome \<noteq> [] \<and> parse (fetch_rss_feed outcome) = Inl e \<longrightarrow>
        poll_iteration parse most_recent_item p outcome = (p, [], Some (PollError e)))
   \<and> (\<forall>f. fetch_rss_feed outcome \<noteq> [] \<and> parse (fetch_rss_feed outcome) = Inr f
          \<and> cycle_raises most_recent_item p f \<longrightarrow>
        fst (poll_iteration parse most_recent_item p outcome) = p
        \<and> (\<exists>e. snd (snd (poll_iteration parse most_recent_item p outcome)) =
                  Some (PollError e)))
   \<and> (\<forall>f. fetch_rss_feed outcome \<noteq> [] \<and> parse (fetch_rss_feed outcome) = Inr f
          \<and> \<not> cycle_raises most_recent_item p f \<longrightarrow>
        last_updated (fst (poll_iteration parse most_recent_item p outcome)) =
          dict_get (feed f) ''updated_parsed''
        \<and> snd (snd (poll_iteration parse most_recent_item p outcome)) = None)"
proof (intro conjI allI impI)
  assume "fetch_rss_feed outcome = []"
  then show "poll_iteration parse most_recent_item p outcome = (p, [], Some NoData)"
    by (simp add: poll_iteration_def)
next
  fix e
  assume "fetch_rss_feed outcome \<noteq> [] \<and> parse (fetch_rss_feed outcome) = Inl e"
  then show "poll_iteration parse most_recent_item p outcome = (p, [], Some (PollError e))"
    by (simp add: poll_iteration_def)
next
  fix f
  assume a: "fetch_rss_feed outcome \<noteq> [] \<and> parse (fetch_rss_feed outcome) = Inr f
      \<and> cycle_raises most_recent_item p f"
  then obtain out e where "select_entries most_recent_item p f = (p, out, Some e)"
    using select_entries_raises by blast
  with a show "fst (poll_iteration parse most_recent_item p outcome) = p"
    by (simp add: poll_iteration_def)
next
  fix f
  assume a: "fetch_rss_feed outcome \<noteq> [] \<and> parse (fetch_rss_feed outcome) = Inr f
      \<and> cycle_raises most_recent_item p f"
  then obtain out e where "select_entries most_recent_item p f = (p, out, Some e)"
    using select_entries_raises by blast
  with a show "\<exists>e. snd (snd (poll_iteration parse most_recent_item p outcome)) =
      Some (PollError e)"
    by (simp add: poll_iteration_def)
next
  fix f
  assume a: "fetch_rss_feed outcome \<noteq> [] \<and> parse (fetch_rss_feed outcome) = Inr f
      \<and> \<not> cycle_raises most_recent_item p f"
  then obtain p' out where "select_entries most_recent_item p f = (p', out, None)"
    using select_entries_completes by blast
  with a show "last_updated (fst (poll_iteration parse most_recent_item p outcome)) =
      dict_get (feed f) ''updated_parsed''"
    by (simp add: poll_iteration_def feed_updated_parsed_def hasattr_def dict_get_def
        dict_get_default_def split: option.splits)
next
  fix f
  assume a: "fetch_rss_feed outcome \<noteq> [] \<and> parse (fetch_rss_feed outcome) = Inr f
      \<and> \<not> cycle_raises most_recent_item p f"
  then obtain p' out where "select_entries most_recent_item p f = (p', out, None)"
    using select_entries_completes by blast
  with a show "snd (snd (poll_iteration parse most_recent_item p outcome)) = None"
    by (simp add: poll_iteration_def)
qed

text \<open>
  C3 as stated fails twice. An exception after a successful parse: with the search string
  \<^verbatim>\<open>python\<close> and the watermark at 2 January, a document of 3 January lists an entry
  without a summary; \<^verbatim>\<open>entry.summary\<close> raises on line 125, line 132 is skipped and the
  watermark stays at 2 January. A parse failure: a text that is no feed is parsed to a
  document without entries and without timestamp, line 132 assigns \<^verbatim>\<open>None\<close>, and the
  watermark of 2 January is gone; the next document only sets it again, and its entry of
  3 January is not emitted.
\<close>

theorem watermark_after_cycle_counterexample:
  "poll_iteration demo_parse False demo_search (Response 200 ''nosummary'') =
     (demo_search, [], Some (PollError AttributeError))
   \<and> demo_parse (fetch_rss_feed (Response 200 ''nosummary'')) = Inr doc_nosummary
   \<and> dict_get (feed doc_nosummary) ''updated_parsed'' = ts_jan3
   \<and> last_updated demo_search = ts_jan2
   \<and> ts_jan2 \<noteq> ts_jan3
   \<and> demo_parse (fetch_rss_feed (Response 200 ''<html>not a feed</html>'')) = Inr doc_malformed
   \<and> entries doc_malformed = []
   \<and> feed doc_malformed = []
   \<and> last_updated demo_steady = ts_jan2
   \<and> poll_iteration demo_parse False demo_steady (Response 200 ''<html>not a feed</html>'') =
       (demo_steady\<lparr>last_updated := PNone\<rparr>, [], None)
   \<and> poll_iteration demo_parse False (demo_steady\<lparr>last_updated := PNone\<rparr>)
         (Response 200 ''mixed'') =
       (demo_steady\<lparr>last_updated := ts_jan3\<rparr>, [], None)
   \<and> selected demo_steady entry_new"
  by (simp add: selected_def is_newer_def passes_search_def poll_defs demo_defs)

text \<open>
  A response with status 503, a transport error, a parser that raises, an entry on which
  the selection raises, a document handled without exception, and a text that is no feed.
\<close>

theorem watermark_after_cycle_witness:
  "fetch_rss_feed (Response 503 ''mixed'') = []
   \<and> poll_iteration demo_parse False demo_steady (Response 503 ''mixed'') =
       (demo_steady, [], Some NoData)
   \<and> fetch_rss_feed TransportError = []
   \<and> poll_iteration demo_parse False demo_steady TransportError =
       (demo_steady, [], Some NoData)
   \<and> raising_parse (fetch_rss_feed (Response 200 ''mixed'')) = Inl (OtherError ''parser raised'')
   \<and> poll_iteration raising_parse False demo_steady (Response 200 ''mixed'') =
       (demo_steady, [], Some (PollError (OtherError ''parser raised'')))
   \<and> demo_parse (fetch_rss_feed (Response 200 ''nosummary'')) = Inr doc_nosummary
   \<and> cycle_raises False demo_search doc_nosummary
   \<and> fst (poll_iteration demo_parse False demo_search (Response 200 ''nosummary'')) = demo_search
   \<and> demo_parse (fetch_rss_feed (Response 200 ''mixed'')) = Inr doc_mixed
   \<and> \<not> cycle_raises False demo_steady doc_mixed
   \<and> last_updated (fst (poll_iteration demo_parse False demo_steady (Response 200 ''mixed''))) =
       ts_jan3
   \<and> snd (snd (poll_iteration demo_parse False demo_steady (Response 200 ''mixed''))) = None
   \<and> demo_parse (fetch_rss_feed (Response 200 ''<html>not a feed</html>'')) = Inr doc_malformed
   \<and> \<not> cycle_raises False demo_steady doc_malformed
   \<and> last_updated (fst (poll_iteration demo_parse False demo_steady
         (Response 200 ''<html>not a feed</html>''))) = PNone"
proof -
  have a1: "fetch_rss_feed (Response 503 ''mixed'') = []" by simp
  have a2: "fetch_rss_feed TransportError = []" by simp
  have b1: "fetch_rss_feed (Response 200 ''mixed'') \<noteq> []" by simp
  have b2: "raising_parse (fetch_rss_feed (Response 200 ''mixed'')) =
              Inl (OtherError ''parser raised'')"
    by (simp add: raising_parse_def)
  have c1: "fetch_rss_feed (Response 200 ''nosummary'') \<noteq> []" by simp
  have c2: "demo_parse (fetch_rss_feed (Response 200 ''nosummary'')) = Inr doc_nosummary"
    by (simp add: demo_parse_def)
  have c3: "cycle_raises False demo_search doc_nosummary"
    by (simp add: cycle_raises_def raises_def poll_defs demo_defs)
  have d2: "demo_parse (fetch_rss_feed (Response 200 ''mixed'')) = Inr doc_mixed"
    by (simp add: demo_parse_def)
  have d3: "\<not> cycle_raises False demo_steady doc_mixed"
    by (simp add: cycle_raises_def raises_def poll_defs demo_defs)
  have d4: "dict_get (feed doc_mixed) ''updated_parsed'' = ts_jan3"
    by (simp add: poll_defs demo_defs)
  have e1: "fetch_rss_feed (Response 200 ''<html>not a feed</html>'') \<noteq> []" by simp
  have e2: "demo_parse (fetch_rss_feed (Response 200 ''<html>not a feed</html>'')) =
              Inr doc_malformed"
    by (simp add: demo_parse_def)
  have e3: "\<not> cycle_raises False demo_steady doc_malformed"
    by (simp add: cycle_raises_def raises_def poll_defs demo_defs)
  have e4: "dict_get (feed doc_malformed) ''updated_parsed'' = PNone"
    by (simp add: poll_defs demo_defs)
  note A1 = watermark_after_cycle
    [where outcome = "Response 503 ''mixed''" and parse = demo_parse and p = demo_steady
       and most_recent_item = False]
  note A2 = watermark_after_cycle
    [where outcome = TransportError and parse = demo_parse and p = demo_steady
       and most_recent_item = False]
  note B = watermark_after_cycle
    [where outcome = "Response 200 ''mixed''" and parse = raising_parse and p = demo_steady
       and most_recent_item = False]
  note C = watermark_after_cycle
    [where outcome = "Response 200 ''nosummary''" and parse = demo_parse and p = demo_search
       and most_recent_item = False]
  note D = watermark_after_cycle
    [where outcome = "Response 200 ''mixed''" and parse = demo_parse and p = demo_steady
       and most_recent_item = False]
  note E = watermark_after_cycle
    [where outcome = "Response 200 ''<html>not a feed</html>''" and parse = demo_parse
       and p = demo_steady and most_recent_item = False]
  from A1 a1 have ra1: "poll_iteration demo_parse False demo_steady (Response 503 ''mixed'') =
      (demo_steady, [], Some NoData)" by blast
  from A2 a2 have ra2: "poll_iteration demo_parse False demo_steady TransportError =
      (demo_steady, [], Some NoData)" by blast
  from B b1 b2 have rb: "poll_iteration raising_parse False demo_steady (Response 200 ''mixed'') =
      (demo_steady, [], Some (PollError (OtherError ''parser raised'')))" by blast
  from C c1 c2 c3
  have rc: "fst (poll_iteration demo_parse False demo_search (Response 200 ''nosummary'')) =
      demo_search" by blast
  from D b1 d2 d3
  have rd: "last_updated (fst (poll_iteration demo_parse False demo_steady (Response 200 ''mixed''))) =
        dict_get (feed doc_mixed) ''updated_parsed''
      \<and> snd (snd (poll_iteration demo_parse False demo_steady (Response 200 ''mixed''))) = None"
    by blast
  from E e1 e2 e3
  have re: "last_updated (fst (poll_iteration demo_parse False demo_steady
        (Response 200 ''<html>not a feed</html>''))) =
        dict_get (feed doc_malformed) ''updated_parsed''" by blast
  from a1 ra1 a2 ra2 b2 rb c2 c3 rc d2 d3 rd d4 e2 e3 re e4 show ?thesis by simp
qed

section \<open>Entries without a comparable timestamp\<close>

text \<open>
  What the steady branch does at an entry without a comparable timestamp: the entries
  before it are handled as usual, the cycle ends at it with the exception logged, the
  entries after it are not looked at, and the poller's variables (the watermark among
  them) stay as they were. The entry itself is not emitted.
\<close>

lemma steady_cycle_ends_at_undated_entry:
  assumes "fetch_rss_feed outcome \<noteq> []"
    and "parse (fetch_rss_feed outcome) = Inr f"
    and "truthy (last_updated p)"
    and "\<not> (first_poll p \<and> most_recent_item \<and> entries f \<noteq> [])"
    and "entries f = pre @ bad # post"
    and "\<forall>e \<in> set pre. \<not> raises p e"
    and "lacks_timestamp (last_updated p) bad"
  shows "(\<exists>err. poll_iteration parse most_recent_item p outcome =
            (p, map (event_of p) (filter (selected p) pre), Some (PollError err)))
         \<and> event_of p bad \<notin> set (map (event_of p) (filter (selected p) pre))"
proof
  obtain err where bad: "entry_selected p bad = Inl err"
    using assms(7) lacks_timestamp_raises by blast
  have scan: "steady_scan p (entries f) =
                (map (event_of p) (filter (selected p) pre), Some err)"
    using assms(5,6) bad by (simp add: steady_scan_raise)
  have sel: "select_entries most_recent_item p f =
               (p, map (event_of p) (filter (selected p) pre), Some err)"
    using assms(3,4) scan by (auto simp: select_entries_def)
  have "poll_iteration parse most_recent_item p outcome =
          (p, map (event_of p) (filter (selected p) pre), Some (PollError err))"
    using assms(1,2) sel by (simp add: poll_iteration_def)
  then show "\<exists>err. poll_iteration parse most_recent_item p outcome =
      (p, map (event_of p) (filter (selected p) pre), Some (PollError err))" by blast
next
  show "event_of p bad \<notin> set (map (event_of p) (filter (selected p) pre))"
  proof
    assume "event_of p bad \<in> set (map (event_of p) (filter (selected p) pre))"
    then obtain e where e: "e \<in> set pre" and eq: "event_of p e = event_of p bad" by auto
    from assms(7) have "lacks_timestamp (last_updated p) (event_of p bad)"
      by (simp add: lacks_timestamp_event_of)
    with eq have "lacks_timestamp (last_updated p) (event_of p e)" by simp
    then have "lacks_timestamp (last_updated p) e"
      by (simp add: lacks_timestamp_event_of)
    then have "raises p e" by (rule lacks_timestamp_is_raise)
    with e assms(6) show False by blast
  qed
qed

text \<open>
  An entry of 3 January followed by an entry whose date was not parsed: the first is
  emitted, then \<^verbatim>\<open>None > last_updated\<close> raises \<^verbatim>\<open>TypeError\<close> and the cycle ends.
\<close>

lemma steady_cycle_ends_at_undated_entry_example:
  "fetch_rss_feed (Response 200 ''baddate'') \<noteq> []
   \<and> demo_parse (fetch_rss_feed (Response 200 ''baddate'')) = Inr doc_baddate
   \<and> truthy (last_updated demo_steady)
   \<and> entries doc_baddate = [entry_new] @ entry_baddate # []
   \<and> (\<forall>e \<in> set [entry_new]. \<not> raises demo_steady e)
   \<and> lacks_timestamp (last_updated demo_steady) entry_baddate
   \<and> (\<exists>err. poll_iteration demo_parse False demo_steady (Response 200 ''baddate'') =
         (demo_steady, [entry_new @ [(''feed_name'', PStr ''Example RSS'')]],
          Some (PollError err)))"
proof -
  have h1: "fetch_rss_feed (Response 200 ''baddate'') \<noteq> []" by simp
  have h2: "demo_parse (fetch_rss_feed (Response 200 ''baddate'')) = Inr doc_baddate"
    by (simp add: demo_parse_def)
  have h3: "truthy (last_updated demo_steady)" by (simp add: demo_defs)
  have h4: "\<not> (first_poll demo_steady \<and> False \<and> entries doc_baddate \<noteq> [])" by simp
  have h5: "entries doc_baddate = [entry_new] @ entry_baddate # []"
    by (simp add: doc_baddate_def)
  have h6: "\<forall>e \<in> set [entry_new]. \<not> raises demo_steady e"
    by (simp add: raises_def poll_defs demo_defs)
  have h7: "lacks_timestamp (last_updated demo_steady) entry_baddate"
    by (simp add: lacks_timestamp_def poll_defs demo_defs)
  have ev: "map (event_of demo_steady) (filter (selected demo_steady) [entry_new]) =
              [entry_new @ [(''feed_name'', PStr ''Example RSS'')]]"
    by (simp add: event_of_def selected_def is_newer_def passes_search_def poll_defs demo_defs)
  show ?thesis
    using steady_cycle_ends_at_undated_entry
      [where outcome = "Response 200 ''baddate''" and parse = demo_parse and f = doc_baddate
         and p = demo_steady and most_recent_item = False and pre = "[entry_new]"
         and bad = entry_baddate and post = "[]", OF h1 h2 h3 h4 h5 h6 h7]
      h1 h2 h3 h5 h6 h7 ev
    by simp
qed

text \<open>
  C4. The claim: in the steady branch an entry without a comparable timestamp is left
  out, the other entries of the cycle are still evaluated, and the watermark is still
  updated. The code at such an entry: with the watermark at 2 January, a document lists
  an entry without \<^verbatim>\<open>updated_parsed\<close> and then an entry of 3 January that passes the
  filter. Reading the attribute on line 125 raises, the handler of line 135 ends the
  cycle, the entry of 3 January is not emitted, and line 132 is not reached: the watermark
  stays at 2 January although the feed's own timestamp is 3 January. (Line 132 reads the
  same attribute of the feed behind \<^verbatim>\<open>hasattr\<close>; line 125 reads it unguarded.)
\<close>

theorem undated_entry_aborts_cycle:
  "poll_iteration demo_parse False demo_steady (Response 200 ''undated'') =
     (demo_steady, [], Some (PollError AttributeError))
   \<and> demo_parse (fetch_rss_feed (Response 200 ''undated'')) = Inr doc_undated
   \<and> entries doc_undated = [entry_undated, entry_new]
   \<and> selected demo_steady entry_new
   \<and> feed_updated_parsed doc_undated = ts_jan3
   \<and> last_updated demo_steady = ts_jan2"
  by (simp add: selected_def is_newer_def passes_search_def poll_defs demo_defs)

section \<open>The search filter and the interval\<close>

lemma str_contains_iff: "str_contains q s = (\<exists>u v. s = u @ q @ v)"
proof (induction s)
  case Nil
  show ?case by auto
next
  case (Cons c s)
  note IH = Cons.IH
  have pre: "(take (length q) (c # s) = q) = (\<exists>v. c # s = q @ v)"
    by (metis append_eq_conv_conj)
  show ?case
  proof
    assume "str_contains q (c # s)"
    then consider "take (length q) (c # s) = q" | "str_contains q s" by auto
    then show "\<exists>u v. c # s = u @ q @ v"
    proof cases
      case 1
      with pre obtain v where "c # s = q @ v" by blast
      then have "c # s = [] @ q @ v" by simp
      then show ?thesis by blast
    next
      case 2
      with IH obtain u v where "s = u @ q @ v" by blast
      then have "c # s = (c # u) @ q @ v" by simp
      then show ?thesis by blast
    qed
  next
    assume "\<exists>u v. c # s = u @ q @ v"
    then obtain u v where uv: "c # s = u @ q @ v" by blast
    show "str_contains q (c # s)"
    proof (cases u)
      case Nil
      with uv have "\<exists>v. c # s = q @ v" by auto
      with pre have "take (length q) (c # s) = q" by blast
      then show ?thesis by simp
    next
      case (Cons a u')
      with uv have "s = u' @ q @ v" by simp
      with IH show ?thesis by auto
    qed
  qed
qed

lemma search_passes_string:
  assumes "\<forall>v. map_of entry ''summary'' = Some v \<longrightarrow> (\<exists>s. v = PStr s)"
  shows "(search_passes search entry = Inr True) =
           (search = PNone \<or>
            (\<exists>q s. search = PStr q \<and> map_of entry ''summary'' = Some (PStr s)
                    \<and> (\<exists>u v. s = u @ q @ v)))"
proof (cases "map_of entry ''summary''")
  case None
  then show ?thesis by (simp add: search_passes_def getattr_def)
next
  case (Some v)
  with assms obtain s where v: "v = PStr s" by blast
  show ?thesis
    by (cases search) (simp_all add: search_passes_def getattr_def Some v str_contains_iff)
qed

text \<open>
  C8. For an entry whose summary, when present, is a string: the search filter passes
  the entry if and only if the feed's \<^verbatim>\<open>search\<close> option is absent or \<^verbatim>\<open>None\<close>, or it is a
  string that occurs in the summary, compared character by character (so case matters).
  The search \<^verbatim>\<open>python\<close> does not pass the summary "A post about Python tips" and passes
  "python rocks".
\<close>

theorem search_filter_substring:
  assumes "\<forall>v. map_of entry ''summary'' = Some v \<longrightarrow> (\<exists>s. v = PStr s)"
  shows "(search_passes (dict_get feed_config ''search'') entry = Inr True) =
           (map_of feed_config ''search'' = None \<or> map_of feed_config ''search'' = Some PNone \<or>
            (\<exists>q s. map_of feed_config ''search'' = Some (PStr q)
                    \<and> map_of entry ''summary'' = Some (PStr s)
                    \<and> (\<exists>u v. s = u @ q @ v)))
         \<and> search_passes (PStr ''python'') [(''summary'', PStr ''A post about Python tips'')] =
             Inr False
         \<and> search_passes (PStr ''python'') [(''summary'', PStr ''python rocks'')] = Inr True"
proof (intro conjI)
  show "(search_passes (dict_get feed_config ''search'') entry = Inr True) =
           (map_of feed_config ''search'' = None \<or> map_of feed_config ''search'' = Some PNone \<or>
            (\<exists>q s. map_of feed_config ''search'' = Some (PStr q)
                    \<and> map_of entry ''summary'' = Some (PStr s)
                    \<and> (\<exists>u v. s = u @ q @ v)))"
  proof (cases "map_of feed_config ''search''")
    case None
    then show ?thesis by (simp add: dict_get_def dict_get_default_def search_passes_def)
  next
    case (Some x)
    then have "dict_get feed_config ''search'' = x"
      by (simp add: dict_get_def dict_get_default_def)
    with Some search_passes_string [OF assms, of x] show ?thesis by simp
  qed
next
  show "search_passes (PStr ''python'') [(''summary'', PStr ''A post about Python tips'')] =
      Inr False"
    by (simp add: search_passes_def getattr_def)
next
  show "search_passes (PStr ''python'') [(''summary'', PStr ''python rocks'')] = Inr True"
    by (simp add: search_passes_def getattr_def)
qed

text \<open>The searches \<^verbatim>\<open>rocks\<close> and \<^verbatim>\<open>Rocks\<close> on the summary "python rocks".\<close>

theorem search_filter_substring_witness:
  "map_of [(''search'', PStr ''rocks'')] ''search'' = Some (PStr ''rocks'')
   \<and> map_of entry_new ''summary'' = Some (PStr ''python rocks'')
   \<and> search_passes (dict_get [(''search'', PStr ''rocks'')] ''search'') entry_new = Inr True
   \<and> search_passes (dict_get [(''search'', PStr ''Rocks'')] ''search'') entry_new \<noteq> Inr True"
proof -
  have h: "\<forall>v. map_of entry_new ''summary'' = Some v \<longrightarrow> (\<exists>s. v = PStr s)"
    by (simp add: entry_new_def)
  have c: "map_of [(''search'', PStr ''rocks'')] ''search'' = Some (PStr ''rocks'')" by simp
  have s: "map_of entry_new ''summary'' = Some (PStr ''python rocks'')"
    by (simp add: entry_new_def)
  have sub: "''python rocks'' = ''python '' @ ''rocks'' @ []" by simp
  have nsub: "\<not> str_contains ''Rocks'' ''python rocks''" by simp
  note A = search_filter_substring [where entry = entry_new
      and feed_config = "[(''search'', PStr ''rocks'')]", OF h]
  note B = search_filter_substring [where entry = entry_new
      and feed_config = "[(''search'', PStr ''Rocks'')]", OF h]
  from A c s sub have ra:
    "search_passes (dict_get [(''search'', PStr ''rocks'')] ''search'') entry_new = Inr True"
    by blast
  from B s nsub have rb:
    "search_passes (dict_get [(''search'', PStr ''Rocks'')] ''search'') entry_new \<noteq> Inr True"
    by (simp add: str_contains_iff)
  from c s ra rb show ?thesis by blast
qed

text \<open>
  C10 (as amended). The effective interval is the feed's own \<^verbatim>\<open>interval\<close> when that value
  is truthy, and the global default when it is absent, \<^verbatim>\<open>None\<close>, 0 or any other falsy
  value. Hence the effective interval is 0 only when the global default is 0.
\<close>

theorem effective_interval_fallback:
  "(map_of feed_config ''interval'' = None \<or> map_of feed_config ''interval'' = Some PNone
      \<or> map_of feed_config ''interval'' = Some (PInt 0) \<longrightarrow>
        effective_interval feed_config default_interval = PInt default_interval)
   \<and> (\<forall>v. map_of feed_config ''interval'' = Some v \<and> truthy v \<longrightarrow>
        effective_interval feed_config default_interval = v)
   \<and> (\<forall>v. map_of feed_config ''interval'' = Some v \<and> \<not> truthy v \<longrightarrow>
        effective_interval feed_config default_interval = PInt default_interval)
   \<and> (effective_interval feed_config default_interval = PInt 0 \<longrightarrow> default_interval = 0)"
  by (cases "map_of feed_config ''interval''")
    (auto simp: effective_interval_def py_or_def dict_get_def dict_get_default_def)

text \<open>
  C10 as stated fails for the global default 0: a feed with \<^verbatim>\<open>interval: 0\<close> falls back
  to it and polls with the interval 0.
\<close>

theorem effective_interval_zero_counterexample:
  "effective_interval [(''url'', PStr ''http://example.com/rss''), (''interval'', PInt 0)] 0 =
     PInt 0"
  by (simp add: effective_interval_def py_or_def dict_get_def dict_get_default_def)

text \<open>Feeds without an interval, with the intervals 0, 30, the empty string and \<^verbatim>\<open>None\<close>.\<close>

theorem effective_interval_fallback_witness:
  "map_of demo_config ''interval'' = None
   \<and> effective_interval demo_config 7200 = PInt 7200
   \<and> map_of [(''interval'', PInt 0)] ''interval'' = Some (PInt 0)
   \<and> effective_interval [(''interval'', PInt 0)] 7200 = PInt 7200
   \<and> map_of [(''interval'', PInt 30)] ''interval'' = Some (PInt 30) \<and> truthy (PInt 30)
   \<and> effective_interval [(''interval'', PInt 30)] 7200 = PInt 30
   \<and> map_of [(''interval'', PStr [])] ''interval'' = Some (PStr []) \<and> \<not> truthy (PStr [])
   \<and> effective_interval [(''interval'', PStr [])] 7200 = PInt 7200
   \<and> effective_interval [(''interval'', PNone)] 0 = PInt 0"
proof -
  have a: "map_of demo_config ''interval'' = None" by (simp add: demo_config_def)
  have b: "map_of [(''interval'', PInt 0)] ''interval'' = Some (PInt 0)" by simp
  have c: "map_of [(''interval'', PInt 30)] ''interval'' = Some (PInt 30) \<and> truthy (PInt 30)"
    by simp
  have d: "map_of [(''interval'', PStr [])] ''interval'' = Some (PStr []) \<and> \<not> truthy (PStr [])"
    by simp
  have e: "map_of [(''interval'', PNone)] ''interval'' = Some PNone" by simp
  from effective_interval_fallback [of demo_config 7200] a
  have ra: "effective_interval demo_config 7200 = PInt 7200" by blast
  from effective_interval_fallback [of "[(''interval'', PInt 0)]" 7200] b
  have rb: "effective_interval [(''interval'', PInt 0)] 7200 = PInt 7200" by blast
  from effective_interval_fallback [of "[(''interval'', PInt 30)]" 7200] c
  have rc: "effective_interval [(''interval'', PInt 30)] 7200 = PInt 30" by blast
  from effective_interval_fallback [of "[(''interval'', PStr [])]" 7200] d
  have rd: "effective_interval [(''interval'', PStr [])] 7200 = PInt 7200" by blast
  from effective_interval_fallback [of "[(''interval'', PNone)]" 0] e
  have re: "effective_interval [(''interval'', PNone)] 0 = PInt 0" by blast
  from a b c d ra rb rc rd re show ?thesis by blast
qed

end
